theory Spec2Isabelle
  imports Complex_Main "HOL-Library.Sublist"
begin

section \<open>The merchant registration form: data model\<close>

text \<open>
  The component \<^verbatim>\<open>NewMerchantForm\<close> of \<^verbatim>\<open>src/components/new-merchant-form.tsx\<close>
  keeps six pieces of React state and reacts to four events (a map click, an edit of the
  address text, a change of the file input, a submission of the form). Each handler is
  modelled as a function from the state at the moment the handler starts to the state when
  its promise has settled, one handler running at a time.

  The repository holds a second, earlier variant of the component, without the size
  checks, the compression and the submit handler; its two geocode handlers are the same
  text. The model follows the file named above.

  Coordinates are JavaScript numbers. The handlers only copy them, so they are modelled as
  reals; nothing below computes with a coordinate.
\<close>

record latlng =
  lat :: real
  lng :: real

text \<open>Line 13: the fallback point the Location starts from.\<close>

definition CHIANG_MAI :: latlng where
  "CHIANG_MAI = \<lparr>lat = 18.7883, lng = 98.9853\<rparr>"

text \<open>Lines 15 and 16: the two size ceilings, in bytes.\<close>

definition MAX_IMAGE_SIZE :: nat where
  "MAX_IMAGE_SIZE = 5 * 1024 * 1024"

definition MAX_UPLOAD_SIZE :: nat where
  "MAX_UPLOAD_SIZE = 1024 * 1024"

text \<open>
  A browser \<^verbatim>\<open>File\<close>: its name and its bytes (a \<open>char\<close> is one byte);
  \<^verbatim>\<open>file.size\<close> is the number of bytes.
\<close>

record File =
  file_name :: string
  file_data :: "char list"

definition file_size :: "File \<Rightarrow> nat" where
  "file_size f = length (file_data f)"

text \<open>
  A value that travels with \<^verbatim>\<open>throw\<close> or rejects a promise: an instance of
  \<^verbatim>\<open>Error\<close> with its message, or any other value.
\<close>

datatype thrown = Error string | NonError

text \<open>
  How a block of statements ends: it runs to its end, it leaves the function by
  \<^verbatim>\<open>return\<close>, or it throws.
\<close>

datatype completion = Normal | Return | Throw thrown

section \<open>Image compression (lines 19 to 55)\<close>

text \<open>
  \<^verbatim>\<open>Math.round\<close> rounds to the nearest integer, a tie going up. The source applies it
  to \<^verbatim>\<open>(height * 1024) / width\<close> on doubles. Image dimensions are below \<open>2^32\<close>, so the
  product is exact and the correctly rounded quotient lies on the same side of every
  half-integer as the exact one: the exact quotient below gives the same integer.
\<close>

definition Math_round :: "real \<Rightarrow> int" where
  "Math_round x = \<lfloor>x + 1 / 2\<rfloor>"

text \<open>
  Lines 24 to 38 of \<^verbatim>\<open>compressImage\<close>: the dimensions of the canvas, from the natural
  dimensions of the decoded image.
\<close>

definition compressImage_dimensions :: "nat \<Rightarrow> nat \<Rightarrow> nat \<times> nat" where
  "compressImage_dimensions img_width img_height =
     (let width = img_width; height = img_height in
      if width > height then
        (if width > 1024
         then (1024, nat (Math_round (real (height * 1024) / real width)))
         else (width, height))
      else
        (if height > 1024
         then (nat (Math_round (real (width * 1024) / real height)), 1024)
         else (width, height)))"

text \<open>
  What the browser contributes to one compression: whether the image decodes
  (\<^verbatim>\<open>onload\<close> with the natural width and height, or \<^verbatim>\<open>onerror\<close>), whether the canvas
  hands out a 2D context, and the string \<^verbatim>\<open>canvas.toDataURL('image/jpeg', 0.7)\<close> returns
  for the image drawn at the given width and height. One of the two events fires for
  every file, and the calls inside \<^verbatim>\<open>onload\<close> return without throwing (the image is
  decoded and of the page's own origin), so every promise settles.
\<close>

record browser =
  load_image :: "File \<Rightarrow> (nat \<times> nat) option"
  getContext :: "File \<Rightarrow> bool"
  toDataURL :: "File \<Rightarrow> nat \<Rightarrow> nat \<Rightarrow> string"

text \<open>
  \<^verbatim>\<open>compressImage\<close>: the settled value of the promise, \<open>Inl\<close> a rejection and \<open>Inr\<close> the
  data URL.
\<close>

definition compressImage :: "browser \<Rightarrow> File \<Rightarrow> thrown + string" where
  "compressImage b f =
     (case load_image b f of
        None \<Rightarrow> Inl (Error ''Failed to load image'')
      | Some (img_width, img_height) \<Rightarrow>
          (case compressImage_dimensions img_width img_height of
             (width, height) \<Rightarrow>
               if \<not> getContext b f then Inl (Error ''Failed to get canvas context'')
               else Inr (toDataURL b f width height)))"

section \<open>Strings and arrays of the JavaScript library\<close>

text \<open>
  \<^verbatim>\<open>String.prototype.split\<close> with a one-character separator: the pieces between the
  separators, in order; the result always has at least one piece.
\<close>

fun String_split :: "char \<Rightarrow> string \<Rightarrow> string list" where
  "String_split sep [] = [[]]"
| "String_split sep (c # cs) =
     (if c = sep then [] # String_split sep cs
      else (case String_split sep cs of
              [] \<Rightarrow> [[c]]
            | piece # pieces \<Rightarrow> (c # piece) # pieces))"

text \<open>\<^verbatim>\<open>Array.prototype.join\<close>.\<close>

fun Array_join :: "string \<Rightarrow> string list \<Rightarrow> string" where
  "Array_join sep [] = []"
| "Array_join sep [x] = x"
| "Array_join sep (x # y # ys) = x @ sep @ Array_join sep (y # ys)"

text \<open>
  \<^verbatim>\<open>Array.prototype.some\<close> with a callback that may throw: the callback runs on the
  elements in order and the search stops at the first element it accepts or throws on.
\<close>

fun Array_some :: "('a \<Rightarrow> thrown + bool) \<Rightarrow> 'a list \<Rightarrow> thrown + bool" where
  "Array_some p [] = Inr False"
| "Array_some p (x # xs) =
     (case p x of
        Inl err \<Rightarrow> Inl err
      | Inr found \<Rightarrow> if found then Inr True else Array_some p xs)"

text \<open>
  \<^verbatim>\<open>Promise.all\<close> over settled promises: the values in the order of the promises, or a
  rejection when one of them rejected. Which rejection wins depends on the order in time;
  the caller below only logs the reason, so the first in the list stands for it.
\<close>

fun Promise_all :: "(thrown + 'a) list \<Rightarrow> thrown + 'a list" where
  "Promise_all [] = Inr []"
| "Promise_all (Inl err # ps) = Inl err"
| "Promise_all (Inr v # ps) =
     (case Promise_all ps of Inl err \<Rightarrow> Inl err | Inr vs \<Rightarrow> Inr (v # vs))"

section \<open>The state of the form\<close>

text \<open>
  The geocoder object: its one method \<^verbatim>\<open>geocode\<close>, from a request to the settled value
  of the promise. Of a result the handlers read \<^verbatim>\<open>formatted_address\<close> and
  \<^verbatim>\<open>geometry?.location\<close>.
\<close>

record GeocoderResult =
  formatted_address :: string
  geometry_location :: "latlng option"

datatype GeocoderRequest = ByLocation latlng | ByAddress string

type_synonym Geocoder = "GeocoderRequest \<Rightarrow> thrown + GeocoderResult list"

text \<open>
  The file input element an upload event targets: the text of its \<^verbatim>\<open>value\<close> and its
  \<^verbatim>\<open>files\<close> (\<^verbatim>\<open>null\<close> or a list).
\<close>

record input_element =
  target_value :: string
  target_files :: "File list option"

text \<open>
  Assigning the empty string to the \<^verbatim>\<open>value\<close> of a file input empties its selection.
\<close>

definition clear_input :: "input_element \<Rightarrow> input_element" where
  "clear_input t = t\<lparr>target_value := [], target_files := map_option (\<lambda>_. []) (target_files t)\<rparr>"

text \<open>The fields of the \<^verbatim>\<open>FormData\<close> the form hands to its action.\<close>

record FormData =
  form_businessName :: string
  form_description :: string
  form_address :: string
  form_location :: string
  form_images :: "string list"

text \<open>
  Lines 71 to 76: the six pieces of React state. With them, what the handlers touch outside
  React: the file input of the form, the files that \<^verbatim>\<open>URL.createObjectURL\<close> was called on
  (line 53, once in every call of \<^verbatim>\<open>compressImage\<close>), and the calls of the \<^verbatim>\<open>onSubmit\<close>
  property, both in call order. \<^verbatim>\<open>console.error\<close> is not modelled.
\<close>

record world =
  location :: latlng
  address :: string
  images :: "string list"
  geocoder :: "Geocoder option"
  error :: "string option"
  isProcessing :: bool
  fileInput :: input_element
  objectURLs :: "File list"
  onSubmit_calls :: "FormData list"

text \<open>The state of the first render (the initial values of lines 71 to 76).\<close>

definition initial_world :: world where
  "initial_world =
     \<lparr>location = CHIANG_MAI, address = [], images = [], geocoder = None, error = None,
      isProcessing = False,
      fileInput = \<lparr>target_value = [], target_files = Some []\<rparr>,
      objectURLs = [], onSubmit_calls = []\<rparr>"

text \<open>
  Lines 83 to 87: the effect that creates the geocoder once the maps script is loaded;
  \<open>g\<close> is the object \<^verbatim>\<open>new google.maps.Geocoder()\<close> gives.
\<close>

definition geocoder_effect :: "bool \<Rightarrow> Geocoder \<Rightarrow> world \<Rightarrow> world" where
  "geocoder_effect isLoaded g s = (if isLoaded then s\<lparr>geocoder := Some g\<rparr> else s)"

text \<open>
  \<^verbatim>\<open>try { body } catch (err) { handler }\<close> and \<^verbatim>\<open>try { body } finally { fin }\<close>: a handler
  runs when the body throws; a \<^verbatim>\<open>finally\<close> block runs however the body ends and, when it
  runs to its end itself, leaves the way the body ended in place.
\<close>

definition try_catch ::
  "(world \<Rightarrow> completion \<times> world) \<Rightarrow> (thrown \<Rightarrow> world \<Rightarrow> completion \<times> world) \<Rightarrow>
   world \<Rightarrow> completion \<times> world" where
  "try_catch body handler s =
     (case body s of
        (Throw err, s') \<Rightarrow> handler err s'
      | (c, s') \<Rightarrow> (c, s'))"

definition try_finally ::
  "(world \<Rightarrow> completion \<times> world) \<Rightarrow> (world \<Rightarrow> completion \<times> world) \<Rightarrow>
   world \<Rightarrow> completion \<times> world" where
  "try_finally body fin s =
     (case body s of
        (c, s') \<Rightarrow>
          (case fin s' of
             (Normal, s'') \<Rightarrow> (c, s'')
           | (c', s'') \<Rightarrow> (c', s'')))"

section \<open>The geocode handlers (lines 89 to 122)\<close>

text \<open>
  \<^verbatim>\<open>handleMapClick\<close>: the event carries \<^verbatim>\<open>e.latLng\<close>, which may be \<^verbatim>\<open>null\<close>. The
  handler runs in two parts, with the \<^verbatim>\<open>await\<close> of line 97 between them. A handler that
  has run up to an \<^verbatim>\<open>await\<close> is suspended: the state it has written so far is what the
  page shows while the promise is pending, and the promise will settle with a rejection
  (\<open>Inl\<close>) or a response (\<open>Inr\<close>).
\<close>

datatype handler_step =
  Finished completion world
| Awaiting "thrown + GeocoderResult list" world

text \<open>
  Lines 90 to 97, up to the \<^verbatim>\<open>await\<close>: the guard, \<^verbatim>\<open>setLocation\<close>, and the call of
  \<^verbatim>\<open>geocoder.geocode\<close>.
\<close>

definition handleMapClick_start :: "latlng option \<Rightarrow> world \<Rightarrow> handler_step" where
  "handleMapClick_start e_latLng s =
     (case (e_latLng, geocoder s) of
        (Some latLng, Some g) \<Rightarrow>
          Awaiting (g (ByLocation \<lparr>lat = lat latLng, lng = lng latLng\<rparr>))
            (s\<lparr>location := \<lparr>lat = lat latLng, lng = lng latLng\<rparr>\<rparr>)
      | _ \<Rightarrow> Finished Return s)"

text \<open>
  Lines 96 to 103, from the moment the promise settles: the rest of the \<^verbatim>\<open>try\<close> block
  and the \<^verbatim>\<open>catch\<close> block.
\<close>

definition handleMapClick_resume ::
  "thrown + GeocoderResult list \<Rightarrow> world \<Rightarrow> completion \<times> world" where
  "handleMapClick_resume response =
     try_catch
       (\<lambda>s1. case response of
                Inl err \<Rightarrow> (Throw err, s1)
              | Inr results \<Rightarrow>
                  (case results of
                     [] \<Rightarrow> (Normal, s1)
                   | r # _ \<Rightarrow> (Normal, s1\<lparr>address := formatted_address r\<rparr>)))
       (\<lambda>err s1. (Normal, s1))"

text \<open>The whole handler, from the click to the settled promise of the handler.\<close>

definition handleMapClick :: "latlng option \<Rightarrow> world \<Rightarrow> completion \<times> world" where
  "handleMapClick e_latLng s =
     (case handleMapClick_start e_latLng s of
        Finished c s' \<Rightarrow> (c, s')
      | Awaiting response s1 \<Rightarrow> handleMapClick_resume response s1)"

text \<open>
  \<^verbatim>\<open>handleAddressChange\<close>: the event carries the text of the address input.
\<close>

definition handleAddressChange :: "string \<Rightarrow> world \<Rightarrow> completion \<times> world" where
  "handleAddressChange newAddress s =
     (let s0 = s\<lparr>address := newAddress\<rparr> in
      case geocoder s of
        None \<Rightarrow> (Return, s0)
      | Some g \<Rightarrow>
          if newAddress = [] then (Return, s0)
          else
            try_catch
              (\<lambda>s1. case g (ByAddress newAddress) of
                       Inl err \<Rightarrow> (Throw err, s1)
                     | Inr results \<Rightarrow>
                         (case results of
                            [] \<Rightarrow> (Normal, s1)
                          | r # _ \<Rightarrow>
                              (case geometry_location r of
                                 None \<Rightarrow> (Normal, s1)
                               | Some l \<Rightarrow>
                                   (Normal, s1\<lparr>location := \<lparr>lat = lat l, lng = lng l\<rparr>\<rparr>))))
              (\<lambda>err s1. (Normal, s1))
              s0)"

section \<open>The image upload handler (lines 124 to 165)\<close>

text \<open>
  Line 146: \<^verbatim>\<open>dataUrl.split(',')[1].length\<close>. A string without a comma has no second
  piece, and reading \<^verbatim>\<open>length\<close> of \<^verbatim>\<open>undefined\<close> throws a \<^verbatim>\<open>TypeError\<close>: that is \<open>None\<close>.
\<close>

definition base64Length :: "string \<Rightarrow> nat option" where
  "base64Length dataUrl =
     (case String_split (CHR '','') dataUrl of
        _ # payload # _ \<Rightarrow> Some (length payload)
      | _ \<Rightarrow> None)"

text \<open>
  Lines 145 to 149, the callback of \<^verbatim>\<open>some\<close>. The product with 0.75 is exact on doubles
  for every length a string can have, so it is the real product.
\<close>

definition exceeds_upload_size :: "string \<Rightarrow> thrown + bool" where
  "exceeds_upload_size dataUrl =
     (case base64Length dataUrl of
        None \<Rightarrow> Inl (Error ''TypeError: cannot read length of undefined'')
      | Some len \<Rightarrow>
          (let sizeInBytes = real len * 0.75
           in Inr (sizeInBytes > real MAX_UPLOAD_SIZE)))"

text \<open>Line 130: the message of the first size check; \<^verbatim>\<open>MAX_IMAGE_SIZE / 1024 / 1024\<close> prints as 5.\<close>

definition oversized_message :: "File list \<Rightarrow> string" where
  "oversized_message oversizedFiles =
     ''Some images are too large (max 5MB): '' @
     Array_join '', '' (map file_name oversizedFiles)"

text \<open>
  Lines 138 to 157, the body of the \<^verbatim>\<open>try\<close>. \<open>images0\<close> is the \<^verbatim>\<open>images\<close> of the render
  the handler was created in.
\<close>

definition upload_try :: "browser \<Rightarrow> string list \<Rightarrow> File list \<Rightarrow> world \<Rightarrow> completion \<times> world" where
  "upload_try b images0 fs s =
     (let s1 = s\<lparr>objectURLs := objectURLs s @ fs\<rparr> in
      case Promise_all (map (compressImage b) fs) of
        Inl err \<Rightarrow> (Throw err, s1)
      | Inr compressedImages \<Rightarrow>
          (case Array_some exceeds_upload_size compressedImages of
             Inl err \<Rightarrow> (Throw err, s1)
           | Inr tooLarge \<Rightarrow>
               if tooLarge then
                 (Return,
                  s1\<lparr>error := Some ''Images are still too large after compression. Please try smaller images.'',
                     fileInput := clear_input (fileInput s1)\<rparr>)
               else (Normal, s1\<lparr>images := images0 @ compressedImages\<rparr>)))"

text \<open>Lines 158 to 161, the \<^verbatim>\<open>catch\<close> block, and line 163, the \<^verbatim>\<open>finally\<close> block.\<close>

definition upload_catch :: "thrown \<Rightarrow> world \<Rightarrow> completion \<times> world" where
  "upload_catch err s =
     (Normal,
      s\<lparr>error := Some ''Failed to process images. Please try again.'',
        fileInput := clear_input (fileInput s)\<rparr>)"

definition upload_finally :: "world \<Rightarrow> completion \<times> world" where
  "upload_finally s = (Normal, s\<lparr>isProcessing := False\<rparr>)"

text \<open>\<^verbatim>\<open>handleImageUpload\<close>; the target of the event is the file input of the form.\<close>

definition handleImageUpload :: "browser \<Rightarrow> world \<Rightarrow> completion \<times> world" where
  "handleImageUpload b s =
     (case target_files (fileInput s) of
        None \<Rightarrow> (Return, s)
      | Some fs \<Rightarrow>
          (let oversizedFiles = filter (\<lambda>file. file_size file > MAX_IMAGE_SIZE) fs in
           if length oversizedFiles > 0 then
             (Return,
              s\<lparr>error := Some (oversized_message oversizedFiles),
                fileInput := clear_input (fileInput s)\<rparr>)
           else
             try_finally
               (try_catch (upload_try b (images s) fs) upload_catch)
               upload_finally
               (s\<lparr>isProcessing := True, error := None\<rparr>)))"

section \<open>Submission (lines 167 to 179, 182 and 233 to 237)\<close>

text \<open>
  \<^verbatim>\<open>JSON.stringify\<close> of a location object: its two keys in the order \<^verbatim>\<open>lat\<close>, \<^verbatim>\<open>lng\<close>. How
  a number prints is the engine's business and is a parameter.
\<close>

definition JSON_stringify :: "(real \<Rightarrow> string) \<Rightarrow> latlng \<Rightarrow> string" where
  "JSON_stringify number l =
     ''{'' @ [CHR 0x22] @ ''lat'' @ [CHR 0x22] @ '':'' @ number (lat l) @
     '','' @ [CHR 0x22] @ ''lng'' @ [CHR 0x22] @ '':'' @ number (lng l) @ ''}''"

text \<open>
  \<^verbatim>\<open>handleSubmit\<close>. \<open>onSubmit\<close> is the caller's handler: \<open>None\<close> when its promise resolves,
  the thrown value when it rejects.
\<close>

definition handleSubmit ::
  "(FormData \<Rightarrow> thrown option) \<Rightarrow> FormData \<Rightarrow> world \<Rightarrow> completion \<times> world" where
  "handleSubmit onSubmit formData =
     try_catch
       (\<lambda>s. let s1 = s\<lparr>error := None\<rparr> in
             if length (images s) < 3 then
               (Return, s1\<lparr>error := Some ''Please upload at least 3 images''\<rparr>)
             else
               (let s2 = s1\<lparr>onSubmit_calls := onSubmit_calls s1 @ [formData]\<rparr> in
                case onSubmit formData of
                  None \<Rightarrow> (Normal, s2)
                | Some err \<Rightarrow> (Throw err, s2)))
       (\<lambda>err s. (Normal,
                  s\<lparr>error := Some (case err of
                                      Error message \<Rightarrow> message
                                    | NonError \<Rightarrow> ''An error occurred while registering'')\<rparr>))"

text \<open>
  The form of the render (line 182 on): its action is \<^verbatim>\<open>handleSubmit\<close>, and the
  \<^verbatim>\<open>FormData\<close> holds the two typed fields, the address input, the hidden \<^verbatim>\<open>location\<close>
  input (line 236) and the hidden \<^verbatim>\<open>images\<close> inputs. The file input has no name and is
  not part of it.
\<close>

definition rendered_FormData :: "(real \<Rightarrow> string) \<Rightarrow> string \<Rightarrow> string \<Rightarrow> world \<Rightarrow> FormData" where
  "rendered_FormData number businessName description s =
     \<lparr>form_businessName = businessName, form_description = description,
      form_address = address s,
      form_location = JSON_stringify number (location s),
      form_images = images s\<rparr>"

definition submit ::
  "(FormData \<Rightarrow> thrown option) \<Rightarrow> (real \<Rightarrow> string) \<Rightarrow> string \<Rightarrow> string \<Rightarrow> world \<Rightarrow>
   completion \<times> world" where
  "submit onSubmit number businessName description s =
     handleSubmit onSubmit (rendered_FormData number businessName description s) s"


section \<open>Concrete inputs\<close>

text \<open>
  A browser, files and states the theorems below are evaluated on. The browser fails to
  decode the file named broken.jpg, hands out no context for nocontext.jpg, and encodes
  big.jpg to 1400000 base64 characters and every other file to 400.
\<close>

definition example_browser :: browser where
  "example_browser =
     \<lparr>load_image = (\<lambda>f. if file_name f = ''broken.jpg'' then None else Some (2048, 1000)),
      getContext = (\<lambda>f. file_name f \<noteq> ''nocontext.jpg''),
      toDataURL = (\<lambda>f width height.
        ''data:image/jpeg;base64,'' @
        replicate (if file_name f = ''big.jpg'' then 1400000 else 400) (CHR ''A''))\<rparr>"

text \<open>
  A browser that decodes every file to an image of the given natural dimensions and whose
  data URL shows the dimensions of the canvas: as many W as the canvas is wide, then as
  many H as it is high.
\<close>

definition canvas_browser :: "nat \<Rightarrow> nat \<Rightarrow> browser" where
  "canvas_browser img_width img_height =
     \<lparr>load_image = (\<lambda>f. Some (img_width, img_height)),
      getContext = (\<lambda>f. True),
      toDataURL = (\<lambda>f width height.
        ''data:image/jpeg;base64,'' @ replicate width (CHR ''W'') @ replicate height (CHR ''H''))\<rparr>"

definition photo :: "string \<Rightarrow> nat \<Rightarrow> File" where
  "photo name n = \<lparr>file_name = name, file_data = replicate n (CHR 0x00)\<rparr>"

definition small_url :: string where
  "small_url = ''data:image/jpeg;base64,'' @ replicate 400 (CHR ''A'')"

definition big_url :: string where
  "big_url = ''data:image/jpeg;base64,'' @ replicate 1400000 (CHR ''A'')"

definition selected :: "File list \<Rightarrow> world" where
  "selected fs =
     initial_world
       \<lparr>images := [''data:image/jpeg;base64,AAAA''],
        fileInput := \<lparr>target_value = ''photos'', target_files = Some fs\<rparr>\<rparr>"

definition stale_error_world :: world where
  "stale_error_world =
     initial_world
       \<lparr>images := [small_url, small_url],
        error := Some ''Please upload at least 3 images''\<rparr>"

definition no_files_world :: world where
  "no_files_world =
     stale_error_world\<lparr>fileInput := \<lparr>target_value = [], target_files = None\<rparr>\<rparr>"

definition example_geocoder :: Geocoder where
  "example_geocoder request =
     (case request of
        ByLocation l \<Rightarrow>
          if lat l = 0 then Inl (Error ''OVER_QUERY_LIMIT'')
          else if lat l = 1 then Inr []
          else Inr [\<lparr>formatted_address = ''Tha Phae Road, Chiang Mai'',
                     geometry_location = Some l\<rparr>]
      | ByAddress a \<Rightarrow>
          if a = ''offline'' then Inl (Error ''OVER_QUERY_LIMIT'')
          else if a = ''nowhere'' then Inr []
          else Inr [\<lparr>formatted_address = a, geometry_location = Some CHIANG_MAI\<rparr>])"

definition example_onSubmit :: "FormData \<Rightarrow> thrown option" where
  "example_onSubmit formData =
     (if form_businessName formData = ''taken'' then Some (Error ''Merchant already exists'')
      else if form_businessName formData = [] then Some NonError
      else None)"


definition example_number :: "real \<Rightarrow> string" where
  "example_number x =
     (if x = 18.7883 then ''18.7883'' else if x = 98.9853 then ''98.9853'' else ''0'')"

definition three_images_world :: world where
  "three_images_world = initial_world\<lparr>images := [small_url, small_url, small_url]\<rparr>"

section \<open>Auxiliary facts\<close>

lemma Math_round_quotient:
  assumes "0 < b"
  shows "Math_round (real a / real b) = int ((2 * a + b) div (2 * b))"
proof -
  have "real a / real b + 1 / 2 = real (2 * a + b) / real (2 * b)"
    using assms by (simp add: field_simps)
  then have "Math_round (real a / real b) = \<lfloor>real (2 * a + b) / real (2 * b)\<rfloor>"
    by (simp add: Math_round_def)
  also have "\<dots> = int ((2 * a + b) div (2 * b))"
    by (rule floor_divide_of_nat_eq)
  finally show ?thesis .
qed

lemma Math_round_nonneg: "0 \<le> x \<Longrightarrow> 0 \<le> Math_round x"
  by (simp add: Math_round_def)

lemma Math_round_near: "\<bar>real_of_int (Math_round x) - x\<bar> \<le> 1 / 2"
  unfolding Math_round_def by linarith

lemma Math_round_scaled_le:
  assumes "a \<le> b" "0 < b"
  shows "Math_round (real (a * 1024) / real b) \<le> 1024"
proof -
  have "real (a * 1024) / real b \<le> 1024"
    using assms by (simp add: field_simps)
  then show ?thesis
    unfolding Math_round_def by linarith
qed

lemma Promise_all_map_Inr: "Promise_all (map Inr vs) = Inr vs"
  by (induction vs) simp_all

lemma Promise_all_rejects:
  "\<exists>p\<in>set ps. isl p \<Longrightarrow> \<exists>err. Promise_all ps = Inl err"
proof (induction ps)
  case Nil
  then show ?case by simp
next
  case (Cons p ps)
  show ?case
  proof (cases p)
    case (Inl err)
    then show ?thesis by simp
  next
    case (Inr v)
    with Cons.prems have "\<exists>q\<in>set ps. isl q" by auto
    then obtain err where "Promise_all ps = Inl err" using Cons.IH by blast
    with Inr show ?thesis by simp
  qed
qed

lemma Array_some_none:
  "\<forall>x\<in>set xs. p x = Inr False \<Longrightarrow> Array_some p xs = Inr False"
  by (induction xs) simp_all

lemma Array_some_found:
  "\<exists>x\<in>set xs. p x = Inr True \<Longrightarrow> Array_some p xs \<noteq> Inr False"
proof (induction xs)
  case Nil
  then show ?case by simp
next
  case (Cons x xs)
  show ?case
  proof (cases "p x")
    case (Inl err)
    then show ?thesis by simp
  next
    case (Inr found)
    show ?thesis
    proof (cases found)
      case True
      with Inr show ?thesis by simp
    next
      case False
      with Inr Cons.prems have "\<exists>y\<in>set xs. p y = Inr True" by auto
      then have "Array_some p xs \<noteq> Inr False" by (rule Cons.IH)
      with Inr False show ?thesis by simp
    qed
  qed
qed

lemma Array_some_found_total:
  "\<forall>x\<in>set xs. \<not> isl (p x) \<Longrightarrow> \<exists>x\<in>set xs. p x = Inr True \<Longrightarrow> Array_some p xs = Inr True"
proof (induction xs)
  case Nil
  then show ?case by simp
next
  case (Cons x xs)
  from Cons.prems(1) obtain found where px: "p x = Inr found"
    by (cases "p x") auto
  show ?case
  proof (cases found)
    case True
    with px show ?thesis by simp
  next
    case False
    with px Cons.prems have "\<exists>y\<in>set xs. p y = Inr True" by auto
    moreover from Cons.prems(1) have "\<forall>y\<in>set xs. \<not> isl (p y)" by simp
    ultimately have "Array_some p xs = Inr True" by (rule Cons.IH [rotated])
    with px False show ?thesis by simp
  qed
qed

lemma String_split_no_sep: "sep \<notin> set cs \<Longrightarrow> String_split sep cs = [cs]"
  by (induction cs) auto

lemma String_split_at_sep:
  "sep \<notin> set hdr \<Longrightarrow> String_split sep (hdr @ sep # rest) = hdr # String_split sep rest"
  by (induction hdr) auto

text \<open>
  On a data URL with exactly one comma, the piece the handler measures is the payload:
  the part after the comma.
\<close>

lemma base64Length_data_url:
  assumes "CHR '','' \<notin> set hdr" "CHR '','' \<notin> set payload"
  shows "base64Length (hdr @ CHR '','' # payload) = Some (length payload)"
  using assms by (simp add: base64Length_def String_split_at_sep String_split_no_sep)

lemma Array_join_names: "x \<in> set xs \<Longrightarrow> sublist x (Array_join sep xs)"
proof (induction sep xs rule: Array_join.induct)
  case (1 sep)
  then show ?case by simp
next
  case (2 sep x')
  then show ?case by simp
next
  case (3 sep x' y ys)
  show ?case
  proof (cases "x = x'")
    case True
    then show ?thesis by (simp add: sublist_def) (metis append_Nil)
  next
    case False
    with 3 have "sublist x (Array_join sep (y # ys))" by simp
    then obtain ps ss where "Array_join sep (y # ys) = ps @ x @ ss"
      by (auto simp: sublist_def)
    then have "Array_join sep (x' # y # ys) = (x' @ sep @ ps) @ x @ ss" by simp
    then show ?thesis unfolding sublist_def by blast
  qed
qed

lemma oversized_message_names:
  "f \<in> set fs \<Longrightarrow> sublist (file_name f) (oversized_message fs)"
proof -
  assume "f \<in> set fs"
  then have "file_name f \<in> set (map file_name fs)" by simp
  then have "sublist (file_name f) (Array_join '', '' (map file_name fs))"
    by (rule Array_join_names)
  then obtain ps ss where "Array_join '', '' (map file_name fs) = ps @ file_name f @ ss"
    by (auto simp: sublist_def)
  then have "oversized_message fs =
      (''Some images are too large (max 5MB): '' @ ps) @ file_name f @ ss"
    by (simp add: oversized_message_def)
  then show ?thesis unfolding sublist_def by blast
qed

section \<open>The paths through the upload handler\<close>

lemma no_oversized:
  "\<forall>f\<in>set fs. file_size f \<le> MAX_IMAGE_SIZE \<Longrightarrow>
   filter (\<lambda>file. file_size file > MAX_IMAGE_SIZE) fs = []"
  by (induction fs) auto

lemma some_oversized:
  "\<exists>f\<in>set fs. MAX_IMAGE_SIZE < file_size f \<Longrightarrow>
   0 < length (filter (\<lambda>file. file_size file > MAX_IMAGE_SIZE) fs)"
  by (induction fs) auto

lemma upload_rejected_before:
  assumes "target_files (fileInput s) = Some fs"
      and "\<exists>f\<in>set fs. MAX_IMAGE_SIZE < file_size f"
  shows "handleImageUpload b s =
     (Return,
      s\<lparr>error := Some (oversized_message (filter (\<lambda>file. file_size file > MAX_IMAGE_SIZE) fs)),
        fileInput := clear_input (fileInput s)\<rparr>)"
  using assms(1) some_oversized [OF assms(2)] by (simp add: handleImageUpload_def)

lemma upload_past_check:
  assumes "target_files (fileInput s) = Some fs"
      and "\<forall>f\<in>set fs. file_size f \<le> MAX_IMAGE_SIZE"
  shows "handleImageUpload b s =
     try_finally (try_catch (upload_try b (images s) fs) upload_catch) upload_finally
       (s\<lparr>isProcessing := True, error := None\<rparr>)"
  using assms(1) no_oversized [OF assms(2)] by (simp add: handleImageUpload_def)

text \<open>The three ways a batch that passed the first check ends.\<close>

lemma upload_appended:
  assumes "target_files (fileInput s) = Some fs"
      and "\<forall>f\<in>set fs. file_size f \<le> MAX_IMAGE_SIZE"
      and "Promise_all (map (compressImage b) fs) = Inr urls"
      and "Array_some exceeds_upload_size urls = Inr False"
  shows "handleImageUpload b s =
     (Normal, s\<lparr>isProcessing := False, error := None, objectURLs := objectURLs s @ fs,
                images := images s @ urls\<rparr>)"
  using assms(3,4)
  by (simp add: upload_past_check [OF assms(1,2)] try_finally_def try_catch_def
      upload_try_def upload_finally_def)

lemma upload_too_large:
  assumes "target_files (fileInput s) = Some fs"
      and "\<forall>f\<in>set fs. file_size f \<le> MAX_IMAGE_SIZE"
      and "Promise_all (map (compressImage b) fs) = Inr urls"
      and "Array_some exceeds_upload_size urls = Inr True"
  shows "handleImageUpload b s =
     (Return, s\<lparr>isProcessing := False,
                error := Some ''Images are still too large after compression. Please try smaller images.'',
                objectURLs := objectURLs s @ fs,
                fileInput := clear_input (fileInput s)\<rparr>)"
  using assms(3,4)
  by (simp add: upload_past_check [OF assms(1,2)] try_finally_def try_catch_def
      upload_try_def upload_finally_def)

lemma upload_thrown:
  assumes "target_files (fileInput s) = Some fs"
      and "\<forall>f\<in>set fs. file_size f \<le> MAX_IMAGE_SIZE"
      and "Promise_all (map (compressImage b) fs) = Inl err \<or>
           (\<exists>urls. Promise_all (map (compressImage b) fs) = Inr urls \<and>
                   Array_some exceeds_upload_size urls = Inl err)"
  shows "handleImageUpload b s =
     (Normal, s\<lparr>isProcessing := False,
                error := Some ''Failed to process images. Please try again.'',
                objectURLs := objectURLs s @ fs,
                fileInput := clear_input (fileInput s)\<rparr>)"
  using assms(3)
  by (auto simp add: upload_past_check [OF assms(1,2)] try_finally_def try_catch_def
      upload_try_def upload_finally_def upload_catch_def)

lemma within_upload_size:
  "base64Length u = Some n \<Longrightarrow> real n * 0.75 \<le> real MAX_UPLOAD_SIZE \<Longrightarrow>
   exceeds_upload_size u = Inr False"
  by (simp add: exceeds_upload_size_def)

lemma beyond_upload_size:
  "base64Length u = Some n \<Longrightarrow> real MAX_UPLOAD_SIZE < real n * 0.75 \<Longrightarrow>
   exceeds_upload_size u = Inr True"
  by (simp add: exceeds_upload_size_def)

lemma exceeds_upload_size_isl: "isl (exceeds_upload_size u) \<longleftrightarrow> base64Length u = None"
  by (simp add: exceeds_upload_size_def split: option.splits)

lemma all_compressed:
  assumes "\<forall>f\<in>set fs. \<exists>u. compressImage b f = Inr u"
  shows "Promise_all (map (compressImage b) fs) = Inr (map (\<lambda>f. projr (compressImage b f)) fs)"
proof -
  have "map (compressImage b) fs = map Inr (map (\<lambda>f. projr (compressImage b f)) fs)"
    using assms by (induction fs) auto
  then show ?thesis by (simp only: Promise_all_map_Inr)
qed

lemma base64Length_jpeg:
  "base64Length (''data:image/jpeg;base64,'' @ replicate n (CHR ''A'')) = Some n"
proof -
  have "''data:image/jpeg;base64,'' @ replicate n (CHR ''A'')
      = ''data:image/jpeg;base64'' @ CHR '','' # replicate n (CHR ''A'')" by simp
  moreover have "base64Length (''data:image/jpeg;base64'' @ CHR '','' # replicate n (CHR ''A''))
      = Some (length (replicate n (CHR ''A'')))"
    by (rule base64Length_data_url) simp_all
  ultimately show ?thesis by simp
qed

lemma compress_small:
  "name \<noteq> ''broken.jpg'' \<Longrightarrow> name \<noteq> ''nocontext.jpg'' \<Longrightarrow> name \<noteq> ''big.jpg'' \<Longrightarrow>
   compressImage example_browser (photo name n) = Inr small_url"
  by (simp add: compressImage_def example_browser_def photo_def small_url_def split_beta)

lemma compress_big: "compressImage example_browser (photo ''big.jpg'' n) = Inr big_url"
  by (simp add: compressImage_def example_browser_def photo_def big_url_def split_beta)

lemma compress_broken:
  "compressImage example_browser (photo ''broken.jpg'' n) = Inl (Error ''Failed to load image'')"
  by (simp add: compressImage_def example_browser_def photo_def)

lemma file_size_photo: "file_size (photo name n) = n"
  by (simp add: file_size_def photo_def)

lemma base64Length_small: "base64Length small_url = Some 400"
  unfolding small_url_def by (rule base64Length_jpeg)

lemma base64Length_big: "base64Length big_url = Some 1400000"
  unfolding big_url_def by (rule base64Length_jpeg)

section \<open>The upload handler: the claims\<close>

text \<open>
  C1. When every selected file is at most 5 MiB and every file compresses to a data URL
  whose size (the length of the piece after the comma, times 0.75) is at most 1 MiB, the
  handler sets the Image list once, to the previous list followed by one data URL per file
  in the order of the selection; the previous entries keep their places, Error is null and
  Processing is false at the end.
\<close>

theorem C1_upload_appends_in_order:
  assumes "target_files (fileInput s) = Some fs"
      and "\<forall>f\<in>set fs. file_size f \<le> MAX_IMAGE_SIZE"
      and "\<forall>f\<in>set fs. \<exists>u n. compressImage b f = Inr u \<and> base64Length u = Some n \<and>
             real n * 0.75 \<le> real MAX_UPLOAD_SIZE"
  shows "images (snd (handleImageUpload b s))
           = images s @ map (\<lambda>f. projr (compressImage b f)) fs \<and>
         length (images (snd (handleImageUpload b s))) = length (images s) + length fs \<and>
         take (length (images s)) (images (snd (handleImageUpload b s))) = images s \<and>
         error (snd (handleImageUpload b s)) = None \<and>
         isProcessing (snd (handleImageUpload b s)) = False \<and>
         fst (handleImageUpload b s) = Normal"
proof -
  let ?urls = "map (\<lambda>f. projr (compressImage b f)) fs"
  have "\<forall>f\<in>set fs. \<exists>u. compressImage b f = Inr u"
    using assms(3) by blast
  then have all: "Promise_all (map (compressImage b) fs) = Inr ?urls"
    by (rule all_compressed)
  have "\<forall>u\<in>set ?urls. exceeds_upload_size u = Inr False"
  proof
    fix u assume "u \<in> set ?urls"
    then obtain f where f: "f \<in> set fs" and u: "u = projr (compressImage b f)" by auto
    from assms(3) f obtain u' n where "compressImage b f = Inr u'"
      "base64Length u' = Some n" "real n * 0.75 \<le> real MAX_UPLOAD_SIZE" by blast
    with u show "exceeds_upload_size u = Inr False"
      by (simp add: within_upload_size)
  qed
  then have none: "Array_some exceeds_upload_size ?urls = Inr False"
    by (rule Array_some_none)
  have "handleImageUpload b s =
     (Normal, s\<lparr>isProcessing := False, error := None, objectURLs := objectURLs s @ fs,
                images := images s @ ?urls\<rparr>)"
    using assms(1,2) all none by (rule upload_appended)
  then show ?thesis by simp
qed

theorem C1_upload_appends_in_order_witness:
  "target_files (fileInput (selected [photo ''a.jpg'' 2097152, photo ''b.jpg'' 3]))
     = Some [photo ''a.jpg'' 2097152, photo ''b.jpg'' 3] \<and>
   file_size (photo ''a.jpg'' 2097152) \<le> MAX_IMAGE_SIZE \<and>
   file_size (photo ''b.jpg'' 3) \<le> MAX_IMAGE_SIZE \<and>
   compressImage example_browser (photo ''a.jpg'' 2097152) = Inr small_url \<and>
   compressImage example_browser (photo ''b.jpg'' 3) = Inr small_url \<and>
   base64Length small_url = Some 400 \<and>
   real 400 * 0.75 \<le> real MAX_UPLOAD_SIZE \<and>
   images (snd (handleImageUpload example_browser
                  (selected [photo ''a.jpg'' 2097152, photo ''b.jpg'' 3])))
     = [''data:image/jpeg;base64,AAAA'', small_url, small_url] \<and>
   error (snd (handleImageUpload example_browser
                  (selected [photo ''a.jpg'' 2097152, photo ''b.jpg'' 3]))) = None"
proof -
  let ?fs = "[photo ''a.jpg'' 2097152, photo ''b.jpg'' 3]"
  have h1: "target_files (fileInput (selected ?fs)) = Some ?fs"
    by (simp add: selected_def)
  have h2: "\<forall>f\<in>set ?fs. file_size f \<le> MAX_IMAGE_SIZE"
    by (simp add: file_size_photo MAX_IMAGE_SIZE_def)
  have h3: "\<forall>f\<in>set ?fs. \<exists>u n. compressImage example_browser f = Inr u \<and>
      base64Length u = Some n \<and> real n * 0.75 \<le> real MAX_UPLOAD_SIZE"
    by (simp add: compress_small base64Length_small MAX_UPLOAD_SIZE_def)
  have "images (selected ?fs) = [''data:image/jpeg;base64,AAAA'']"
    by (simp add: selected_def)
  with C1_upload_appends_in_order [OF h1 h2 h3] h1 h2 show ?thesis
    by (simp add: compress_small base64Length_small MAX_UPLOAD_SIZE_def)
qed

text \<open>
  C2. When some selected file is larger than 5 MiB the handler returns at the first check:
  Error is the message of line 130, which holds the name of every oversized file, the file
  input is cleared, the Image list and the Processing flag are as before, and no
  compression was started (no object URL was created, and the outcome is the same for
  every browser behaviour).
\<close>

theorem C2_oversized_batch_rejected:
  assumes "target_files (fileInput s) = Some fs"
      and "\<exists>f\<in>set fs. MAX_IMAGE_SIZE < file_size f"
  shows "fst (handleImageUpload b s) = Return \<and>
         error (snd (handleImageUpload b s))
           = Some (''Some images are too large (max 5MB): '' @
                   Array_join '', ''
                     (map file_name (filter (\<lambda>f. MAX_IMAGE_SIZE < file_size f) fs))) \<and>
         (\<forall>f\<in>set fs. MAX_IMAGE_SIZE < file_size f \<longrightarrow>
            sublist (file_name f) (the (error (snd (handleImageUpload b s))))) \<and>
         target_value (fileInput (snd (handleImageUpload b s))) = [] \<and>
         target_files (fileInput (snd (handleImageUpload b s))) = Some [] \<and>
         images (snd (handleImageUpload b s)) = images s \<and>
         isProcessing (snd (handleImageUpload b s)) = isProcessing s \<and>
         objectURLs (snd (handleImageUpload b s)) = objectURLs s \<and>
         (\<forall>b'. handleImageUpload b' s = handleImageUpload b s)"
proof -
  let ?over = "filter (\<lambda>file. file_size file > MAX_IMAGE_SIZE) fs"
  have run: "handleImageUpload b' s =
     (Return, s\<lparr>error := Some (oversized_message ?over),
                fileInput := clear_input (fileInput s)\<rparr>)" for b'
    using assms by (rule upload_rejected_before)
  have names: "\<forall>f\<in>set fs. MAX_IMAGE_SIZE < file_size f \<longrightarrow>
      sublist (file_name f) (oversized_message ?over)"
    by (simp add: oversized_message_names)
  show ?thesis
    using names assms(1) by (simp add: run clear_input_def oversized_message_def)
qed

theorem C2_oversized_batch_rejected_witness:
  "target_files (fileInput (selected [photo ''a.jpg'' 3, photo ''huge.png'' 6291456]))
     = Some [photo ''a.jpg'' 3, photo ''huge.png'' 6291456] \<and>
   (\<exists>f\<in>set [photo ''a.jpg'' 3, photo ''huge.png'' 6291456]. MAX_IMAGE_SIZE < file_size f) \<and>
   error (snd (handleImageUpload example_browser
                 (selected [photo ''a.jpg'' 3, photo ''huge.png'' 6291456])))
     = Some ''Some images are too large (max 5MB): huge.png'' \<and>
   images (snd (handleImageUpload example_browser
                 (selected [photo ''a.jpg'' 3, photo ''huge.png'' 6291456])))
     = [''data:image/jpeg;base64,AAAA''] \<and>
   objectURLs (snd (handleImageUpload example_browser
                 (selected [photo ''a.jpg'' 3, photo ''huge.png'' 6291456]))) = []"
proof -
  let ?fs = "[photo ''a.jpg'' 3, photo ''huge.png'' 6291456]"
  have h1: "target_files (fileInput (selected ?fs)) = Some ?fs"
    by (simp add: selected_def)
  have h2: "\<exists>f\<in>set ?fs. MAX_IMAGE_SIZE < file_size f"
    by (simp add: file_size_photo MAX_IMAGE_SIZE_def)
  have "images (selected ?fs) = [''data:image/jpeg;base64,AAAA'']"
       "objectURLs (selected ?fs) = []"
    by (simp_all add: selected_def initial_world_def)
  with C2_oversized_batch_rejected [OF h1 h2, of example_browser] h1 h2 show ?thesis
    by (simp add: file_size_def MAX_IMAGE_SIZE_def photo_def)
qed

text \<open>
  C3. When every compression of the batch succeeded and some data URL has a size (the
  length of the piece after the comma, times 0.75) above 1 MiB, the whole batch is
  rejected: the Image list is as before, Error is set, the file input is cleared and
  Processing is false. Error is the message of line 152 when every data URL has a comma;
  it is the message of the \<^verbatim>\<open>catch\<close> block when the search threw on an earlier data URL
  without one.
\<close>

theorem C3_too_large_after_compression:
  assumes "target_files (fileInput s) = Some fs"
      and "\<forall>f\<in>set fs. file_size f \<le> MAX_IMAGE_SIZE"
      and "map (compressImage b) fs = map Inr urls"
      and "\<exists>u\<in>set urls. \<exists>n. base64Length u = Some n \<and> real MAX_UPLOAD_SIZE < real n * 0.75"
  shows "images (snd (handleImageUpload b s)) = images s \<and>
         (error (snd (handleImageUpload b s))
            = Some ''Images are still too large after compression. Please try smaller images.'' \<or>
          error (snd (handleImageUpload b s))
            = Some ''Failed to process images. Please try again.'') \<and>
         ((\<forall>u\<in>set urls. base64Length u \<noteq> None) \<longrightarrow>
            error (snd (handleImageUpload b s))
              = Some ''Images are still too large after compression. Please try smaller images.'') \<and>
         target_value (fileInput (snd (handleImageUpload b s))) = [] \<and>
         target_files (fileInput (snd (handleImageUpload b s))) = Some [] \<and>
         isProcessing (snd (handleImageUpload b s)) = False"
proof -
  have all: "Promise_all (map (compressImage b) fs) = Inr urls"
    by (simp only: assms(3) Promise_all_map_Inr)
  have found: "\<exists>u\<in>set urls. exceeds_upload_size u = Inr True"
    using assms(4) by (blast intro: beyond_upload_size)
  then have not_none: "Array_some exceeds_upload_size urls \<noteq> Inr False"
    by (rule Array_some_found)
  have total: "Array_some exceeds_upload_size urls = Inr True"
    if "\<forall>u\<in>set urls. base64Length u \<noteq> None"
  proof -
    from that have "\<forall>u\<in>set urls. \<not> isl (exceeds_upload_size u)"
      by (simp add: exceeds_upload_size_isl)
    then show ?thesis using found by (rule Array_some_found_total)
  qed
  show ?thesis
  proof (cases "Array_some exceeds_upload_size urls")
    case (Inl err)
    then have "Promise_all (map (compressImage b) fs) = Inl err \<or>
           (\<exists>urls. Promise_all (map (compressImage b) fs) = Inr urls \<and>
                   Array_some exceeds_upload_size urls = Inl err)"
      using all by blast
    with assms(1,2) have "handleImageUpload b s =
       (Normal, s\<lparr>isProcessing := False,
                error := Some ''Failed to process images. Please try again.'',
                objectURLs := objectURLs s @ fs,
                fileInput := clear_input (fileInput s)\<rparr>)"
      by (rule upload_thrown)
    moreover have "\<not> (\<forall>u\<in>set urls. base64Length u \<noteq> None)"
    proof
      assume "\<forall>u\<in>set urls. base64Length u \<noteq> None"
      then have "Array_some exceeds_upload_size urls = Inr True" by (rule total)
      with Inl show False by simp
    qed
    ultimately show ?thesis using assms(1) by (simp add: clear_input_def)
  next
    case (Inr tooLarge)
    with not_none have "Array_some exceeds_upload_size urls = Inr True" by simp
    with assms(1,2) all have "handleImageUpload b s =
     (Return, s\<lparr>isProcessing := False,
                error := Some ''Images are still too large after compression. Please try smaller images.'',
                objectURLs := objectURLs s @ fs,
                fileInput := clear_input (fileInput s)\<rparr>)"
      by (rule upload_too_large)
    then show ?thesis using assms(1) by (simp add: clear_input_def)
  qed
qed

theorem C3_too_large_after_compression_witness:
  "target_files (fileInput (selected [photo ''a.jpg'' 3, photo ''big.jpg'' 4]))
     = Some [photo ''a.jpg'' 3, photo ''big.jpg'' 4] \<and>
   file_size (photo ''a.jpg'' 3) \<le> MAX_IMAGE_SIZE \<and>
   file_size (photo ''big.jpg'' 4) \<le> MAX_IMAGE_SIZE \<and>
   map (compressImage example_browser) [photo ''a.jpg'' 3, photo ''big.jpg'' 4]
     = map Inr [small_url, big_url] \<and>
   (\<exists>u\<in>set [small_url, big_url]. \<exists>n. base64Length u = Some n \<and>
      real MAX_UPLOAD_SIZE < real n * 0.75) \<and>
   images (snd (handleImageUpload example_browser (selected [photo ''a.jpg'' 3, photo ''big.jpg'' 4])))
     = [''data:image/jpeg;base64,AAAA''] \<and>
   error (snd (handleImageUpload example_browser (selected [photo ''a.jpg'' 3, photo ''big.jpg'' 4])))
     = Some ''Images are still too large after compression. Please try smaller images.'' \<and>
   target_files (fileInput (snd (handleImageUpload example_browser
                                   (selected [photo ''a.jpg'' 3, photo ''big.jpg'' 4])))) = Some []"
proof -
  let ?fs = "[photo ''a.jpg'' 3, photo ''big.jpg'' 4]"
  have h1: "target_files (fileInput (selected ?fs)) = Some ?fs"
    by (simp add: selected_def)
  have h2: "\<forall>f\<in>set ?fs. file_size f \<le> MAX_IMAGE_SIZE"
    by (simp add: file_size_photo MAX_IMAGE_SIZE_def)
  have h3: "map (compressImage example_browser) ?fs = map Inr [small_url, big_url]"
    by (simp add: compress_small compress_big)
  have h4: "\<exists>u\<in>set [small_url, big_url]. \<exists>n. base64Length u = Some n \<and>
      real MAX_UPLOAD_SIZE < real n * 0.75"
    by (simp add: base64Length_big MAX_UPLOAD_SIZE_def)
  have h5: "\<forall>u\<in>set [small_url, big_url]. base64Length u \<noteq> None"
    by (simp add: base64Length_big base64Length_small)
  have "images (selected ?fs) = [''data:image/jpeg;base64,AAAA'']"
    by (simp add: selected_def)
  with C3_too_large_after_compression [OF h1 h2 h3 h4] h1 h2 h3 h4 h5 show ?thesis
    by simp
qed

lemma upload_frame:
  "location (snd (handleImageUpload b s)) = location s \<and>
   address (snd (handleImageUpload b s)) = address s"
  by (simp add: handleImageUpload_def try_finally_def try_catch_def upload_try_def
      upload_catch_def upload_finally_def Let_def split: option.splits sum.splits)

lemma upload_empty_selection:
  assumes "target_files (fileInput s) = Some []"
  shows "handleImageUpload b s = (Normal, s\<lparr>isProcessing := False, error := None\<rparr>)"
proof -
  have "handleImageUpload b s =
     (Normal, s\<lparr>isProcessing := False, error := None, objectURLs := objectURLs s @ [],
                images := images s @ []\<rparr>)"
    by (rule upload_appended [OF assms]) simp_all
  then show ?thesis by simp
qed

text \<open>
  C6. A call with an empty selection leaves the Image list, Location, Address and the
  file input as they were and starts no compression, but it goes through the handler like
  any other batch: Error is null and Processing is false at the end. The call changes
  nothing exactly when Error was null and Processing was false before it. Only a
  \<^verbatim>\<open>files\<close> that is \<^verbatim>\<open>null\<close> makes the handler return at once (line 125).
\<close>

theorem C6_empty_selection:
  "(target_files (fileInput s) = Some [] \<longrightarrow>
      images (snd (handleImageUpload b s)) = images s \<and>
      location (snd (handleImageUpload b s)) = location s \<and>
      address (snd (handleImageUpload b s)) = address s \<and>
      fileInput (snd (handleImageUpload b s)) = fileInput s \<and>
      objectURLs (snd (handleImageUpload b s)) = objectURLs s \<and>
      error (snd (handleImageUpload b s)) = None \<and>
      isProcessing (snd (handleImageUpload b s)) = False \<and>
      (snd (handleImageUpload b s) = s \<longleftrightarrow> error s = None \<and> \<not> isProcessing s)) \<and>
   (target_files (fileInput s) = None \<longrightarrow> handleImageUpload b s = (Return, s))"
proof (intro conjI impI)
  assume "target_files (fileInput s) = None"
  then show "handleImageUpload b s = (Return, s)"
    by (simp add: handleImageUpload_def)
next
  assume empty: "target_files (fileInput s) = Some []"
  have run: "handleImageUpload b s = (Normal, s\<lparr>isProcessing := False, error := None\<rparr>)"
    using empty by (rule upload_empty_selection)
  have same: "s\<lparr>isProcessing := False, error := None\<rparr> = s \<longleftrightarrow>
      error s = None \<and> \<not> isProcessing s"
  proof
    assume eq: "s\<lparr>isProcessing := False, error := None\<rparr> = s"
    have "error (s\<lparr>isProcessing := False, error := None\<rparr>) = None"
         "isProcessing (s\<lparr>isProcessing := False, error := None\<rparr>) = False"
      by simp_all
    then show "error s = None \<and> \<not> isProcessing s" unfolding eq by simp
  next
    assume "error s = None \<and> \<not> isProcessing s"
    then show "s\<lparr>isProcessing := False, error := None\<rparr> = s" by simp
  qed
  show "images (snd (handleImageUpload b s)) = images s"
    and "location (snd (handleImageUpload b s)) = location s"
    and "address (snd (handleImageUpload b s)) = address s"
    and "fileInput (snd (handleImageUpload b s)) = fileInput s"
    and "objectURLs (snd (handleImageUpload b s)) = objectURLs s"
    and "error (snd (handleImageUpload b s)) = None"
    and "isProcessing (snd (handleImageUpload b s)) = False"
    by (simp_all add: run)
  show "snd (handleImageUpload b s) = s \<longleftrightarrow> error s = None \<and> \<not> isProcessing s"
    using same by (simp add: run)
qed

theorem C6_empty_selection_witness:
  "target_files (fileInput stale_error_world) = Some [] \<and>
   images (snd (handleImageUpload example_browser stale_error_world)) = [small_url, small_url] \<and>
   error (snd (handleImageUpload example_browser stale_error_world)) = None \<and>
   isProcessing (snd (handleImageUpload example_browser stale_error_world)) = False \<and>
   target_files (fileInput no_files_world) = None \<and>
   handleImageUpload example_browser no_files_world = (Return, no_files_world)"
proof -
  have h: "target_files (fileInput stale_error_world) = Some []"
    by (simp add: stale_error_world_def initial_world_def)
  have n: "target_files (fileInput no_files_world) = None"
    by (simp add: no_files_world_def)
  have "images stale_error_world = [small_url, small_url]"
    by (simp add: stale_error_world_def)
  with C6_empty_selection [of stale_error_world example_browser]
    C6_empty_selection [of no_files_world example_browser] h n
  show ?thesis by simp
qed

theorem C6_empty_selection_counterexample:
  "target_files (fileInput stale_error_world) = Some [] \<and>
   error stale_error_world = Some ''Please upload at least 3 images'' \<and>
   error (snd (handleImageUpload example_browser stale_error_world)) = None \<and>
   error (snd (handleImageUpload example_browser stale_error_world)) \<noteq> error stale_error_world"
proof -
  have h: "target_files (fileInput stale_error_world) = Some []"
    by (simp add: stale_error_world_def initial_world_def)
  show ?thesis
    by (simp add: upload_empty_selection [OF h]) (simp add: stale_error_world_def initial_world_def)
qed

text \<open>
  C7. A batch that passed the first size check ends with Processing false, on each of the
  three paths, and the handler does not throw. When some compression of the batch fails,
  Error is the message of the \<^verbatim>\<open>catch\<close> block, the file input is cleared and the Image
  list is as before.
\<close>

theorem C7_processing_reset:
  assumes "target_files (fileInput s) = Some fs"
      and "\<forall>f\<in>set fs. file_size f \<le> MAX_IMAGE_SIZE"
  shows "isProcessing (snd (handleImageUpload b s)) = False \<and>
         (\<forall>e. fst (handleImageUpload b s) \<noteq> Throw e) \<and>
         ((\<exists>f\<in>set fs. isl (compressImage b f)) \<longrightarrow>
            error (snd (handleImageUpload b s))
              = Some ''Failed to process images. Please try again.'' \<and>
            target_value (fileInput (snd (handleImageUpload b s))) = [] \<and>
            target_files (fileInput (snd (handleImageUpload b s))) = Some [] \<and>
            images (snd (handleImageUpload b s)) = images s)"
proof (cases "Promise_all (map (compressImage b) fs)")
  case (Inl err)
  then have "Promise_all (map (compressImage b) fs) = Inl err \<or>
           (\<exists>urls. Promise_all (map (compressImage b) fs) = Inr urls \<and>
                   Array_some exceeds_upload_size urls = Inl err)"
    by simp
  with assms have "handleImageUpload b s =
     (Normal, s\<lparr>isProcessing := False,
                error := Some ''Failed to process images. Please try again.'',
                objectURLs := objectURLs s @ fs,
                fileInput := clear_input (fileInput s)\<rparr>)"
    by (rule upload_thrown)
  then show ?thesis using assms(1) by (simp add: clear_input_def)
next
  case (Inr urls)
  have none_failed: "\<not> (\<exists>f\<in>set fs. isl (compressImage b f))"
  proof
    assume "\<exists>f\<in>set fs. isl (compressImage b f)"
    then have "\<exists>p\<in>set (map (compressImage b) fs). isl p" by simp
    then obtain err where "Promise_all (map (compressImage b) fs) = Inl err"
      using Promise_all_rejects by blast
    with Inr show False by simp
  qed
  show ?thesis
  proof (cases "Array_some exceeds_upload_size urls")
    case (Inl err)
    with Inr have "Promise_all (map (compressImage b) fs) = Inl err \<or>
           (\<exists>urls. Promise_all (map (compressImage b) fs) = Inr urls \<and>
                   Array_some exceeds_upload_size urls = Inl err)"
      by simp
    with assms have "handleImageUpload b s =
       (Normal, s\<lparr>isProcessing := False,
                error := Some ''Failed to process images. Please try again.'',
                objectURLs := objectURLs s @ fs,
                fileInput := clear_input (fileInput s)\<rparr>)"
      by (rule upload_thrown)
    then show ?thesis using none_failed by simp
  next
    case inner: (Inr tooLarge)
    show ?thesis
    proof (cases tooLarge)
      case True
      with inner have "Array_some exceeds_upload_size urls = Inr True" by simp
      with assms Inr have "handleImageUpload b s =
        (Return, s\<lparr>isProcessing := False,
                error := Some ''Images are still too large after compression. Please try smaller images.'',
                objectURLs := objectURLs s @ fs,
                fileInput := clear_input (fileInput s)\<rparr>)"
        by (rule upload_too_large)
      then show ?thesis using none_failed by simp
    next
      case False
      with inner have "Array_some exceeds_upload_size urls = Inr False" by simp
      with assms Inr have "handleImageUpload b s =
        (Normal, s\<lparr>isProcessing := False, error := None, objectURLs := objectURLs s @ fs,
                images := images s @ urls\<rparr>)"
        by (rule upload_appended)
      then show ?thesis using none_failed by simp
    qed
  qed
qed

theorem C7_processing_reset_witness:
  "target_files (fileInput (selected [photo ''a.jpg'' 3, photo ''broken.jpg'' 4]))
     = Some [photo ''a.jpg'' 3, photo ''broken.jpg'' 4] \<and>
   file_size (photo ''a.jpg'' 3) \<le> MAX_IMAGE_SIZE \<and>
   file_size (photo ''broken.jpg'' 4) \<le> MAX_IMAGE_SIZE \<and>
   (\<exists>f\<in>set [photo ''a.jpg'' 3, photo ''broken.jpg'' 4]. isl (compressImage example_browser f)) \<and>
   isProcessing (snd (handleImageUpload example_browser
                        (selected [photo ''a.jpg'' 3, photo ''broken.jpg'' 4]))) = False \<and>
   error (snd (handleImageUpload example_browser
                        (selected [photo ''a.jpg'' 3, photo ''broken.jpg'' 4])))
     = Some ''Failed to process images. Please try again.'' \<and>
   images (snd (handleImageUpload example_browser
                        (selected [photo ''a.jpg'' 3, photo ''broken.jpg'' 4])))
     = [''data:image/jpeg;base64,AAAA'']"
proof -
  let ?fs = "[photo ''a.jpg'' 3, photo ''broken.jpg'' 4]"
  have h1: "target_files (fileInput (selected ?fs)) = Some ?fs"
    by (simp add: selected_def)
  have h2: "\<forall>f\<in>set ?fs. file_size f \<le> MAX_IMAGE_SIZE"
    by (simp add: file_size_photo MAX_IMAGE_SIZE_def)
  have h3: "\<exists>f\<in>set ?fs. isl (compressImage example_browser f)"
    by (simp add: compress_broken)
  have "images (selected ?fs) = [''data:image/jpeg;base64,AAAA'']"
    by (simp add: selected_def)
  with C7_processing_reset [OF h1 h2, of example_browser] h1 h2 h3 show ?thesis
    by (simp add: compress_broken)
qed

section \<open>The geocode handlers and submission: the claims\<close>

lemma map_click_start_guard:
  "e_latLng = None \<or> geocoder s = None \<Longrightarrow>
   handleMapClick_start e_latLng s = Finished Return s"
  by (auto simp add: handleMapClick_start_def split: option.splits)

lemma map_click_guard:
  "e_latLng = None \<or> geocoder s = None \<Longrightarrow> handleMapClick e_latLng s = (Return, s)"
  by (simp add: handleMapClick_def map_click_start_guard)

lemma latlng_copy: "\<lparr>lat = lat p, lng = lng p\<rparr> = p"
  by (cases p) simp

lemma map_click_run:
  assumes "geocoder s = Some g"
  shows "handleMapClick (Some p) s =
     (Normal,
      case g (ByLocation p) of
        Inl err \<Rightarrow> s\<lparr>location := p\<rparr>
      | Inr results \<Rightarrow>
          (case results of
             [] \<Rightarrow> s\<lparr>location := p\<rparr>
           | r # _ \<Rightarrow> s\<lparr>location := p, address := formatted_address r\<rparr>))"
  using assms
  by (simp add: handleMapClick_def handleMapClick_start_def handleMapClick_resume_def
      try_catch_def latlng_copy split: sum.splits list.splits)

lemma map_click_start:
  assumes "geocoder s = Some g"
  shows "handleMapClick_start (Some p) s = Awaiting (g (ByLocation p)) (s\<lparr>location := p\<rparr>)"
  using assms by (simp add: handleMapClick_start_def latlng_copy)

lemma map_click_resume_location:
  "location (snd (handleMapClick_resume response s1)) = location s1"
  by (simp add: handleMapClick_resume_def try_catch_def split: sum.splits list.splits)

lemma map_click_frame:
  "images (snd (handleMapClick e_latLng s)) = images s \<and>
   error (snd (handleMapClick e_latLng s)) = error s \<and>
   isProcessing (snd (handleMapClick e_latLng s)) = isProcessing s"
proof (cases "e_latLng = None \<or> geocoder s = None")
  case True
  then show ?thesis by (simp only: map_click_guard) simp
next
  case False
  then obtain p g where "e_latLng = Some p" "geocoder s = Some g" by auto
  then show ?thesis
    by (simp add: map_click_run split: sum.splits list.splits)
qed

lemma address_change_frame:
  "images (snd (handleAddressChange newAddress s)) = images s \<and>
   error (snd (handleAddressChange newAddress s)) = error s \<and>
   isProcessing (snd (handleAddressChange newAddress s)) = isProcessing s"
  by (simp add: handleAddressChange_def try_catch_def Let_def latlng_copy
      split: option.splits sum.splits list.splits)

text \<open>
  C8. A map click that carries coordinates and arrives when the geocoder exists sets
  Location to the coordinates at once: the handler is suspended at its \<^verbatim>\<open>await\<close> with
  Location already written (and nothing else changed), whatever the geocoder will answer,
  and the part that runs after the answer leaves Location alone. Address becomes the
  formatted address of the first result when the lookup returns one, and stays as it was
  when the lookup returns no result or fails; a failure does not touch Error and is not
  thrown on. A click without coordinates, or one that arrives while the geocoder is still
  null, ends at the guard of line 90 and changes nothing: Location is not set.
\<close>

theorem C8_map_click:
  "(geocoder s = Some g \<longrightarrow>
      handleMapClick_start (Some p) s = Awaiting (g (ByLocation p)) (s\<lparr>location := p\<rparr>) \<and>
      handleMapClick (Some p) s = handleMapClick_resume (g (ByLocation p)) (s\<lparr>location := p\<rparr>) \<and>
      (\<forall>response s1. location (snd (handleMapClick_resume response s1)) = location s1) \<and>
      location (snd (handleMapClick (Some p) s)) = p \<and>
      (\<forall>r rs. g (ByLocation p) = Inr (r # rs) \<longrightarrow>
         address (snd (handleMapClick (Some p) s)) = formatted_address r) \<and>
      (g (ByLocation p) = Inr [] \<longrightarrow> address (snd (handleMapClick (Some p) s)) = address s) \<and>
      (\<forall>err. g (ByLocation p) = Inl err \<longrightarrow>
         address (snd (handleMapClick (Some p) s)) = address s) \<and>
      error (snd (handleMapClick (Some p) s)) = error s \<and>
      fst (handleMapClick (Some p) s) = Normal) \<and>
   (e_latLng = None \<or> geocoder s = None \<longrightarrow>
      handleMapClick_start e_latLng s = Finished Return s \<and>
      handleMapClick e_latLng s = (Return, s))"
proof (intro conjI impI)
  assume g: "geocoder s = Some g"
  show start: "handleMapClick_start (Some p) s
      = Awaiting (g (ByLocation p)) (s\<lparr>location := p\<rparr>)"
    using g by (rule map_click_start)
  show "handleMapClick (Some p) s
      = handleMapClick_resume (g (ByLocation p)) (s\<lparr>location := p\<rparr>)"
    by (simp add: handleMapClick_def start)
  show "\<forall>response s1. location (snd (handleMapClick_resume response s1)) = location s1"
    by (simp add: map_click_resume_location)
  show "location (snd (handleMapClick (Some p) s)) = p"
    by (simp add: map_click_run [OF g] split: sum.splits list.splits)
  show "\<forall>r rs. g (ByLocation p) = Inr (r # rs) \<longrightarrow>
         address (snd (handleMapClick (Some p) s)) = formatted_address r"
    by (simp add: map_click_run [OF g])
  show "address (snd (handleMapClick (Some p) s)) = address s" if "g (ByLocation p) = Inr []"
    using that by (simp add: map_click_run [OF g])
  show "\<forall>err. g (ByLocation p) = Inl err \<longrightarrow>
         address (snd (handleMapClick (Some p) s)) = address s"
    by (simp add: map_click_run [OF g])
  show "error (snd (handleMapClick (Some p) s)) = error s"
    by (simp add: map_click_run [OF g] split: sum.splits list.splits)
  show "fst (handleMapClick (Some p) s) = Normal"
    by (simp add: map_click_run [OF g])
next
  assume "e_latLng = None \<or> geocoder s = None"
  then show "handleMapClick_start e_latLng s = Finished Return s"
    by (rule map_click_start_guard)
next
  assume "e_latLng = None \<or> geocoder s = None"
  then show "handleMapClick e_latLng s = (Return, s)" by (rule map_click_guard)
qed

theorem C8_map_click_witness:
  "geocoder (geocoder_effect True example_geocoder initial_world) = Some example_geocoder \<and>
   example_geocoder (ByLocation \<lparr>lat = 2, lng = 3\<rparr>)
     = Inr [\<lparr>formatted_address = ''Tha Phae Road, Chiang Mai'',
             geometry_location = Some \<lparr>lat = 2, lng = 3\<rparr>\<rparr>] \<and>
   example_geocoder (ByLocation \<lparr>lat = 1, lng = 3\<rparr>) = Inr [] \<and>
   example_geocoder (ByLocation \<lparr>lat = 0, lng = 3\<rparr>) = Inl (Error ''OVER_QUERY_LIMIT'') \<and>
   handleMapClick_start (Some \<lparr>lat = 0, lng = 3\<rparr>)
       (geocoder_effect True example_geocoder initial_world)
     = Awaiting (Inl (Error ''OVER_QUERY_LIMIT''))
         ((geocoder_effect True example_geocoder initial_world)
            \<lparr>location := \<lparr>lat = 0, lng = 3\<rparr>\<rparr>) \<and>
   handleMapClick_start (Some \<lparr>lat = 2, lng = 3\<rparr>)
       (geocoder_effect True example_geocoder initial_world)
     = Awaiting (Inr [\<lparr>formatted_address = ''Tha Phae Road, Chiang Mai'',
                       geometry_location = Some \<lparr>lat = 2, lng = 3\<rparr>\<rparr>])
         ((geocoder_effect True example_geocoder initial_world)
            \<lparr>location := \<lparr>lat = 2, lng = 3\<rparr>\<rparr>) \<and>
   location (snd (handleMapClick (Some \<lparr>lat = 2, lng = 3\<rparr>)
                    (geocoder_effect True example_geocoder initial_world)))
     = \<lparr>lat = 2, lng = 3\<rparr> \<and>
   address (snd (handleMapClick (Some \<lparr>lat = 2, lng = 3\<rparr>)
                    (geocoder_effect True example_geocoder initial_world)))
     = ''Tha Phae Road, Chiang Mai'' \<and>
   location (snd (handleMapClick (Some \<lparr>lat = 0, lng = 3\<rparr>)
                    (geocoder_effect True example_geocoder initial_world)))
     = \<lparr>lat = 0, lng = 3\<rparr> \<and>
   address (snd (handleMapClick (Some \<lparr>lat = 0, lng = 3\<rparr>)
                    (geocoder_effect True example_geocoder initial_world))) = [] \<and>
   address (snd (handleMapClick (Some \<lparr>lat = 1, lng = 3\<rparr>)
                    (geocoder_effect True example_geocoder initial_world))) = [] \<and>
   handleMapClick_start (Some \<lparr>lat = 2, lng = 3\<rparr>) initial_world
     = Finished Return initial_world \<and>
   handleMapClick (Some \<lparr>lat = 2, lng = 3\<rparr>) initial_world = (Return, initial_world)"
proof -
  let ?s = "geocoder_effect True example_geocoder initial_world"
  have g: "geocoder ?s = Some example_geocoder" by (simp add: geocoder_effect_def)
  have a: "address ?s = []" by (simp add: geocoder_effect_def initial_world_def)
  have n: "geocoder initial_world = None" by (simp add: initial_world_def)
  have r2: "example_geocoder (ByLocation \<lparr>lat = 2, lng = 3\<rparr>)
     = Inr [\<lparr>formatted_address = ''Tha Phae Road, Chiang Mai'',
             geometry_location = Some \<lparr>lat = 2, lng = 3\<rparr>\<rparr>]"
    by (simp add: example_geocoder_def)
  have r1: "example_geocoder (ByLocation \<lparr>lat = 1, lng = 3\<rparr>) = Inr []"
    by (simp add: example_geocoder_def)
  have r0: "example_geocoder (ByLocation \<lparr>lat = 0, lng = 3\<rparr>) = Inl (Error ''OVER_QUERY_LIMIT'')"
    by (simp add: example_geocoder_def)
  show ?thesis
    using C8_map_click [of ?s example_geocoder "\<lparr>lat = 2, lng = 3\<rparr>" None]
      C8_map_click [of ?s example_geocoder "\<lparr>lat = 1, lng = 3\<rparr>" None]
      C8_map_click [of ?s example_geocoder "\<lparr>lat = 0, lng = 3\<rparr>" None]
      C8_map_click [of initial_world example_geocoder "\<lparr>lat = 2, lng = 3\<rparr>"
                      "Some \<lparr>lat = 2, lng = 3\<rparr>"]
    by (simp add: r0 r1 r2 a n g handleMapClick_resume_def try_catch_def)
qed

theorem C8_map_click_counterexample:
  "geocoder initial_world = None \<and>
   handleMapClick_start (Some \<lparr>lat = 2, lng = 3\<rparr>) initial_world
     = Finished Return initial_world \<and>
   location (snd (handleMapClick (Some \<lparr>lat = 2, lng = 3\<rparr>) initial_world))
     \<noteq> \<lparr>lat = 2, lng = 3\<rparr>"
proof -
  have n: "geocoder initial_world = None" by (simp add: initial_world_def)
  then have run: "handleMapClick (Some \<lparr>lat = 2, lng = 3\<rparr>) initial_world
      = (Return, initial_world)"
    by (simp add: map_click_guard)
  from n have start: "handleMapClick_start (Some \<lparr>lat = 2, lng = 3\<rparr>) initial_world
      = Finished Return initial_world"
    by (simp add: map_click_start_guard)
  have "location initial_world \<noteq> \<lparr>lat = 2, lng = 3\<rparr>"
    by (simp add: initial_world_def CHIANG_MAI_def)
  then show ?thesis using n start by (simp add: run)
qed

text \<open>
  C10. The upload handler never changes Location or Address; the two geocode handlers
  never change the Image list, Error or the Processing flag. This holds for every input,
  so on every path.
\<close>

theorem C10_disjoint_state:
  "location (snd (handleImageUpload b s)) = location s \<and>
   address (snd (handleImageUpload b s)) = address s \<and>
   images (snd (handleMapClick e_latLng s)) = images s \<and>
   error (snd (handleMapClick e_latLng s)) = error s \<and>
   isProcessing (snd (handleMapClick e_latLng s)) = isProcessing s \<and>
   images (snd (handleAddressChange newAddress s)) = images s \<and>
   error (snd (handleAddressChange newAddress s)) = error s \<and>
   isProcessing (snd (handleAddressChange newAddress s)) = isProcessing s"
  using upload_frame [of b s] map_click_frame [of e_latLng s]
    address_change_frame [of newAddress s]
  by simp

lemma submit_rejected:
  assumes "length (images s) < 3"
  shows "handleSubmit onSubmit formData s =
     (Return, s\<lparr>error := Some ''Please upload at least 3 images''\<rparr>)"
  using assms by (simp add: handleSubmit_def try_catch_def)

lemma submit_resolved:
  assumes "3 \<le> length (images s)" and "onSubmit formData = None"
  shows "handleSubmit onSubmit formData s =
     (Normal, s\<lparr>error := None, onSubmit_calls := onSubmit_calls s @ [formData]\<rparr>)"
  using assms by (simp add: handleSubmit_def try_catch_def)

lemma submit_rejects:
  assumes "3 \<le> length (images s)" and "onSubmit formData = Some err"
  shows "handleSubmit onSubmit formData s =
     (Normal,
      s\<lparr>onSubmit_calls := onSubmit_calls s @ [formData],
        error := Some (case err of
                         Error message \<Rightarrow> message
                       | NonError \<Rightarrow> ''An error occurred while registering'')\<rparr>)"
  using assms by (simp add: handleSubmit_def try_catch_def)

lemma submit_calls:
  "3 \<le> length (images s) \<Longrightarrow>
   onSubmit_calls (snd (handleSubmit onSubmit formData s)) = onSubmit_calls s @ [formData]"
  by (cases "onSubmit formData") (simp_all add: submit_resolved submit_rejects)

text \<open>
  C5. A submission with fewer than three images does not call the external handler and
  sets Error to the message of line 171. A submission with three or more images calls the
  external handler once, with the form data it was given; the form of the render gives it
  a \<^verbatim>\<open>location\<close> field that is \<^verbatim>\<open>JSON.stringify\<close> of the Location of the state.
\<close>

theorem C5_submit_needs_three_images:
  "(length (images s) < 3 \<longrightarrow>
      onSubmit_calls (snd (handleSubmit onSubmit formData s)) = onSubmit_calls s \<and>
      error (snd (handleSubmit onSubmit formData s)) = Some ''Please upload at least 3 images'' \<and>
      onSubmit_calls (snd (submit onSubmit number businessName description s))
        = onSubmit_calls s \<and>
      error (snd (submit onSubmit number businessName description s))
        = Some ''Please upload at least 3 images'') \<and>
   (3 \<le> length (images s) \<longrightarrow>
      onSubmit_calls (snd (handleSubmit onSubmit formData s)) = onSubmit_calls s @ [formData] \<and>
      onSubmit_calls (snd (submit onSubmit number businessName description s))
        = onSubmit_calls s @ [rendered_FormData number businessName description s] \<and>
      form_location (last (onSubmit_calls (snd (submit onSubmit number businessName description s))))
        = JSON_stringify number (location s))"
proof (intro conjI impI)
  assume few: "length (images s) < 3"
  show "onSubmit_calls (snd (handleSubmit onSubmit formData s)) = onSubmit_calls s"
    by (simp add: submit_rejected [OF few])
  show "error (snd (handleSubmit onSubmit formData s)) = Some ''Please upload at least 3 images''"
    by (simp add: submit_rejected [OF few])
  show "onSubmit_calls (snd (submit onSubmit number businessName description s)) = onSubmit_calls s"
    by (simp add: submit_def submit_rejected [OF few])
  show "error (snd (submit onSubmit number businessName description s))
        = Some ''Please upload at least 3 images''"
    by (simp add: submit_def submit_rejected [OF few])
next
  assume enough: "3 \<le> length (images s)"
  show "onSubmit_calls (snd (handleSubmit onSubmit formData s)) = onSubmit_calls s @ [formData]"
    using enough by (rule submit_calls)
  show calls: "onSubmit_calls (snd (submit onSubmit number businessName description s))
        = onSubmit_calls s @ [rendered_FormData number businessName description s]"
    unfolding submit_def using enough by (rule submit_calls)
  show "form_location (last (onSubmit_calls (snd (submit onSubmit number businessName description s))))
        = JSON_stringify number (location s)"
    by (simp add: calls rendered_FormData_def)
qed

theorem C5_submit_needs_three_images_witness:
  "length (images stale_error_world) < 3 \<and>
   onSubmit_calls (snd (submit example_onSubmit example_number ''Cafe'' ''Coffee'' stale_error_world))
     = [] \<and>
   error (snd (submit example_onSubmit example_number ''Cafe'' ''Coffee'' stale_error_world))
     = Some ''Please upload at least 3 images'' \<and>
   3 \<le> length (images three_images_world) \<and>
   length (onSubmit_calls
     (snd (submit example_onSubmit example_number ''Cafe'' ''Coffee'' three_images_world))) = 1 \<and>
   form_location (last (onSubmit_calls
     (snd (submit example_onSubmit example_number ''Cafe'' ''Coffee'' three_images_world))))
     = ''{'' @ [CHR 0x22] @ ''lat'' @ [CHR 0x22] @ '':18.7883,'' @
       [CHR 0x22] @ ''lng'' @ [CHR 0x22] @ '':98.9853}''"
proof -
  have few: "length (images stale_error_world) < 3"
    by (simp add: stale_error_world_def)
  have enough: "3 \<le> length (images three_images_world)"
    by (simp add: three_images_world_def)
  have c0: "onSubmit_calls stale_error_world = []" "onSubmit_calls three_images_world = []"
    by (simp_all add: stale_error_world_def three_images_world_def initial_world_def)
  have loc: "JSON_stringify example_number (location three_images_world)
     = ''{'' @ [CHR 0x22] @ ''lat'' @ [CHR 0x22] @ '':18.7883,'' @
       [CHR 0x22] @ ''lng'' @ [CHR 0x22] @ '':98.9853}''"
    by (simp add: JSON_stringify_def three_images_world_def initial_world_def CHIANG_MAI_def
        example_number_def)
  show ?thesis
    using C5_submit_needs_three_images [of stale_error_world example_onSubmit
        "rendered_FormData example_number ''Cafe'' ''Coffee'' stale_error_world"
        example_number "''Cafe''" "''Coffee''"]
      C5_submit_needs_three_images [of three_images_world example_onSubmit
        "rendered_FormData example_number ''Cafe'' ''Coffee'' three_images_world"
        example_number "''Cafe''" "''Coffee''"]
      few enough
    by (simp add: c0 loc rendered_FormData_def)
qed




section \<open>The dimension computation\<close>

lemma dims_small: "max w h \<le> 1024 \<Longrightarrow> compressImage_dimensions w h = (w, h)"
  by (simp add: compressImage_dimensions_def)

lemma dims_wide:
  "h < w \<Longrightarrow> 1024 < w \<Longrightarrow>
   compressImage_dimensions w h = (1024, nat (Math_round (real (h * 1024) / real w)))"
  by (simp add: compressImage_dimensions_def)

lemma dims_tall:
  "w \<le> h \<Longrightarrow> 1024 < h \<Longrightarrow>
   compressImage_dimensions w h = (nat (Math_round (real (w * 1024) / real h)), 1024)"
  by (simp add: compressImage_dimensions_def)

lemma scaled_side_le:
  assumes "a \<le> b" "0 < b"
  shows "nat (Math_round (real (a * 1024) / real b)) \<le> 1024"
  using Math_round_scaled_le [OF assms] by linarith

lemma scaled_side_near:
  assumes "0 < b"
  shows "\<bar>real (nat (Math_round (real (a * 1024) / real b))) - real (a * 1024) / real b\<bar> \<le> 1 / 2"
proof -
  have "0 \<le> real (a * 1024) / real b" by simp
  then have "0 \<le> Math_round (real (a * 1024) / real b)" by (rule Math_round_nonneg)
  then have "real (nat (Math_round (real (a * 1024) / real b)))
      = real_of_int (Math_round (real (a * 1024) / real b))" by simp
  then show ?thesis using Math_round_near [of "real (a * 1024) / real b"] by simp
qed

lemma dims_longer_side:
  assumes "1024 < max w h"
  shows "max (fst (compressImage_dimensions w h)) (snd (compressImage_dimensions w h)) = 1024"
proof (cases "h < w")
  case True
  with assms have w: "1024 < w" by simp
  have "nat (Math_round (real (h * 1024) / real w)) \<le> 1024"
    using True w by (intro scaled_side_le) simp_all
  then show ?thesis using True w by (simp add: dims_wide)
next
  case False
  then have wh: "w \<le> h" by simp
  with assms have h: "1024 < h" by simp
  have "nat (Math_round (real (w * 1024) / real h)) \<le> 1024"
    using wh h by (intro scaled_side_le) simp_all
  then show ?thesis using wh h by (simp add: dims_tall)
qed

lemma dims_other_side:
  assumes "1024 < max w h"
  shows "min (fst (compressImage_dimensions w h)) (snd (compressImage_dimensions w h))
         = nat (Math_round (real (min w h * 1024) / real (max w h)))"
proof (cases "h < w")
  case True
  with assms have w: "1024 < w" by simp
  have "nat (Math_round (real (h * 1024) / real w)) \<le> 1024"
    using True w by (intro scaled_side_le) simp_all
  moreover have "max w h = w" "min w h = h" using True by simp_all
  ultimately show ?thesis using True w by (simp add: dims_wide)
next
  case False
  then have wh: "w \<le> h" by simp
  with assms have h: "1024 < h" by simp
  have "nat (Math_round (real (w * 1024) / real h)) \<le> 1024"
    using wh h by (intro scaled_side_le) simp_all
  moreover have "max w h = h" "min w h = w" using wh by simp_all
  ultimately show ?thesis using wh h by (simp add: dims_tall)
qed

lemma dims_bounded:
  "max (fst (compressImage_dimensions w h)) (snd (compressImage_dimensions w h)) \<le> 1024"
proof (cases "max w h \<le> 1024")
  case True
  then show ?thesis by (simp add: dims_small)
next
  case False
  then have "1024 < max w h" by (simp only: not_le)
  then show ?thesis by (simp only: dims_longer_side)
qed

lemma compressImage_canvas:
  assumes "load_image b f = Some (w, h)" and "getContext b f"
  shows "compressImage b f =
     Inr (toDataURL b f (fst (compressImage_dimensions w h))
                        (snd (compressImage_dimensions w h)))"
  using assms by (simp add: compressImage_def split_beta)

text \<open>
  C4. The canvas has the dimensions of the image when its longer side is at most 1024
  pixels. Otherwise the longer side becomes 1024 and the other side
  \<^verbatim>\<open>Math.round(other * 1024 / longer)\<close>: the width is the side set to 1024 when the image
  is wider than high, the height when it is not. The longer side of the canvas is at most
  1024 in every case, and the scaled side is within one half of the exact quotient. These
  are the dimensions \<^verbatim>\<open>compressImage\<close> gives the canvas (lines 40 and 41) and draws and
  encodes the image at: for an image that decodes to \<open>(w, h)\<close>, with a context at hand,
  the promise resolves with the data URL of the canvas of exactly these dimensions.
\<close>

theorem C4_compressImage_dimensions:
  "(max w h \<le> 1024 \<longrightarrow> compressImage_dimensions w h = (w, h)) \<and>
   (h < w \<and> 1024 < w \<longrightarrow>
      compressImage_dimensions w h = (1024, nat (Math_round (real (h * 1024) / real w)))) \<and>
   (w \<le> h \<and> 1024 < h \<longrightarrow>
      compressImage_dimensions w h = (nat (Math_round (real (w * 1024) / real h)), 1024)) \<and>
   (1024 < max w h \<longrightarrow>
      max (fst (compressImage_dimensions w h)) (snd (compressImage_dimensions w h)) = 1024 \<and>
      min (fst (compressImage_dimensions w h)) (snd (compressImage_dimensions w h))
        = nat (Math_round (real (min w h * 1024) / real (max w h))) \<and>
      \<bar>real (min (fst (compressImage_dimensions w h)) (snd (compressImage_dimensions w h)))
        - real (min w h * 1024) / real (max w h)\<bar> \<le> 1 / 2) \<and>
   max (fst (compressImage_dimensions w h)) (snd (compressImage_dimensions w h)) \<le> 1024 \<and>
   (load_image b f = Some (w, h) \<and> getContext b f \<longrightarrow>
      compressImage b f =
        Inr (toDataURL b f (fst (compressImage_dimensions w h))
                           (snd (compressImage_dimensions w h))) \<and>
      (max w h \<le> 1024 \<longrightarrow> compressImage b f = Inr (toDataURL b f w h)) \<and>
      (h < w \<and> 1024 < w \<longrightarrow>
         compressImage b f =
           Inr (toDataURL b f 1024 (nat (Math_round (real (h * 1024) / real w))))) \<and>
      (w \<le> h \<and> 1024 < h \<longrightarrow>
         compressImage b f =
           Inr (toDataURL b f (nat (Math_round (real (w * 1024) / real h))) 1024)))"
proof (intro conjI impI)
  assume "max w h \<le> 1024"
  then show "compressImage_dimensions w h = (w, h)" by (rule dims_small)
next
  assume "h < w \<and> 1024 < w"
  then show "compressImage_dimensions w h = (1024, nat (Math_round (real (h * 1024) / real w)))"
    by (simp add: dims_wide)
next
  assume "w \<le> h \<and> 1024 < h"
  then show "compressImage_dimensions w h = (nat (Math_round (real (w * 1024) / real h)), 1024)"
    by (simp add: dims_tall)
next
  assume "1024 < max w h"
  then show "max (fst (compressImage_dimensions w h)) (snd (compressImage_dimensions w h)) = 1024"
    by (rule dims_longer_side)
next
  assume big: "1024 < max w h"
  then show "min (fst (compressImage_dimensions w h)) (snd (compressImage_dimensions w h))
        = nat (Math_round (real (min w h * 1024) / real (max w h)))"
    by (rule dims_other_side)
next
  assume big: "1024 < max w h"
  then have "0 < max w h" by simp
  then have "\<bar>real (nat (Math_round (real (min w h * 1024) / real (max w h))))
        - real (min w h * 1024) / real (max w h)\<bar> \<le> 1 / 2"
    by (rule scaled_side_near)
  then show "\<bar>real (min (fst (compressImage_dimensions w h)) (snd (compressImage_dimensions w h)))
        - real (min w h * 1024) / real (max w h)\<bar> \<le> 1 / 2"
    by (simp only: dims_other_side [OF big])
next
  show "max (fst (compressImage_dimensions w h)) (snd (compressImage_dimensions w h)) \<le> 1024"
    by (rule dims_bounded)
next
  assume "load_image b f = Some (w, h) \<and> getContext b f"
  then show "compressImage b f =
        Inr (toDataURL b f (fst (compressImage_dimensions w h))
                           (snd (compressImage_dimensions w h)))"
    by (simp add: compressImage_canvas)
next
  assume "load_image b f = Some (w, h) \<and> getContext b f" and "max w h \<le> 1024"
  then show "compressImage b f = Inr (toDataURL b f w h)"
    by (simp add: compressImage_canvas dims_small)
next
  assume "load_image b f = Some (w, h) \<and> getContext b f" and "h < w \<and> 1024 < w"
  then show "compressImage b f =
           Inr (toDataURL b f 1024 (nat (Math_round (real (h * 1024) / real w))))"
    by (simp add: compressImage_canvas dims_wide)
next
  assume "load_image b f = Some (w, h) \<and> getContext b f" and "w \<le> h \<and> 1024 < h"
  then show "compressImage b f =
           Inr (toDataURL b f (nat (Math_round (real (w * 1024) / real h))) 1024)"
    by (simp add: compressImage_canvas dims_tall)
qed

theorem C4_compressImage_dimensions_witness:
  "compressImage_dimensions 800 600 = (800, 600) \<and>
   compressImage_dimensions 2048 1000 = (1024, 500) \<and>
   compressImage_dimensions 600 2000 = (307, 1024) \<and>
   compressImage_dimensions 1025 1025 = (1024, 1024) \<and>
   load_image (canvas_browser 2048 1000) (photo ''a.jpg'' 3) = Some (2048, 1000) \<and>
   getContext (canvas_browser 2048 1000) (photo ''a.jpg'' 3) \<and>
   compressImage (canvas_browser 2048 1000) (photo ''a.jpg'' 3)
     = Inr (''data:image/jpeg;base64,'' @ replicate 1024 (CHR ''W'') @ replicate 500 (CHR ''H'')) \<and>
   compressImage (canvas_browser 800 600) (photo ''a.jpg'' 3)
     = Inr (''data:image/jpeg;base64,'' @ replicate 800 (CHR ''W'') @ replicate 600 (CHR ''H'')) \<and>
   compressImage (canvas_browser 600 2000) (photo ''a.jpg'' 3)
     = Inr (''data:image/jpeg;base64,'' @ replicate 307 (CHR ''W'') @ replicate 1024 (CHR ''H''))"
proof -
  have r1: "Math_round 500 = 500"
    unfolding Math_round_def by linarith
  have r2: "Math_round (1536 / 5) = 307"
    unfolding Math_round_def by linarith
  have r3: "Math_round 1024 = 1024"
    unfolding Math_round_def by linarith
  have b: "load_image (canvas_browser iw ih) x = Some (iw, ih)"
          "getContext (canvas_browser iw ih) x"
          "toDataURL (canvas_browser iw ih) x cw ch
             = ''data:image/jpeg;base64,'' @ replicate cw (CHR ''W'') @ replicate ch (CHR ''H'')"
    for iw ih x cw ch
    by (simp_all add: canvas_browser_def)
  show ?thesis
    using C4_compressImage_dimensions
        [of 800 600 "canvas_browser 800 600" "photo ''a.jpg'' 3"]
      C4_compressImage_dimensions
        [of 2048 1000 "canvas_browser 2048 1000" "photo ''a.jpg'' 3"]
      C4_compressImage_dimensions
        [of 600 2000 "canvas_browser 600 2000" "photo ''a.jpg'' 3"]
      C4_compressImage_dimensions
        [of 1025 1025 "canvas_browser 1025 1025" "photo ''a.jpg'' 3"]
    by (simp add: r1 r2 r3 b)
qed

end
